theory Spec2Isabelle
  imports Complex_Main "HOL-Library.AList"
begin

section \<open>The pre-build script \<open>build_cnext.py\<close>\<close>

text \<open>
  The script runs two external commands and then copies the generated C++ files from
  \<open>generated/\<close> into \<open>src/\<close>. Everything it observes of the outside world is made
  explicit here: the two directories it reads and writes, the outcome of each child
  process, and the trace of what it prints, runs, reads and copies.
\<close>

subsection \<open>Files and directories\<close>

text \<open>
  A regular file carries the two things the script can see of it: its modification
  time (\<open>st_mtime\<close>, a finite float that the script only compares, hence a real
  number here) and its content. A directory is the list of its entries in the order
  in which the operating system enumerates them.

  \<open>src/\<close> is taken to exist and to hold regular files, as the script itself assumes (it
  never tests for it). \<open>generated/\<close> may be absent, may be a regular file, or may be a
  directory whose entries are files and sub-directories.
\<close>

datatype regular = File (st_mtime: real) (data: string)

datatype node = Reg regular | Dir "(string \<times> node) list"

record project_dir =
  src :: "(string \<times> regular) list"
  generated :: "node option"

subsection \<open>Exceptions, child processes, output\<close>

text \<open>
  The exceptions are the subclasses of \<open>Exception\<close> that the modelled operations raise.
  \<open>SystemExit\<close> is not one of them: it derives from \<open>BaseException\<close>, so the handler
  \<open>except Exception\<close> lets it through.
\<close>

datatype exn =
    CalledProcessError int string string
  | OSError string
  | IsADirectoryError string
  | ValueError string

datatype abrupt = Raised exn | SystemExit int

text \<open>
  What the operating system reports of a child process: it ran to completion with a
  return code and its two captured streams, or it could not be started at all.
\<close>

datatype proc = Exited int string string | NotStarted string

text \<open>
  The external tools are opaque: a command is any function from the directory it finds
  to its outcome and the directory it leaves.
\<close>

type_synonym tools = "string \<Rightarrow> project_dir \<Rightarrow> proc \<times> project_dir"

text \<open>The lines the script prints on standard output, without their status glyphs.\<close>

datatype line =
    ScriptStarting
  | DebugStarting
  | StartingTranspilation
  | ForceTranspiling
  | CompilingBuildScript
  | CompilationFailed string
  | RunningTranspilation
  | TranspilationFailed string
  | Output string
  | CopyingGenerated
  | Copied string
  | Completed
  | Error exn

datatype event =
    Print line
  | PrintExc exn
  | Run string
  | Exists string
  | Glob string string
  | Stat string
  | Copy2 string string

record world =
  dir :: project_dir
  trace :: "event list"

definition emit :: "event \<Rightarrow> world \<Rightarrow> world" where
  "emit e w = w\<lparr>trace := trace w @ [e]\<rparr>"

definition emits :: "event list \<Rightarrow> world \<Rightarrow> world" where
  "emits es w = w\<lparr>trace := trace w @ es\<rparr>"

subsection \<open>Globbing\<close>

text \<open>
  \<open>Path.glob\<close> with a pattern without a slash matches the names of the entries of the
  directory itself, of whatever kind, hidden ones included. The patterns of the script
  hold literal characters and \<open>*\<close> only, which is what this matcher reads.
\<close>

fun fnmatch :: "string \<Rightarrow> string \<Rightarrow> bool" where
  "fnmatch s [] = (s = [])"
| "fnmatch [] (p # ps) = (p = CHR ''*'' \<and> fnmatch [] ps)"
| "fnmatch (c # cs) (p # ps) =
     (if p = CHR ''*'' then fnmatch (c # cs) ps \<or> fnmatch cs (p # ps)
      else p = c \<and> fnmatch cs ps)"

definition glob :: "string \<Rightarrow> (string \<times> 'a) list \<Rightarrow> (string \<times> 'a) list" where
  "glob pattern entries = filter (\<lambda>e. fnmatch (fst e) pattern) entries"

subsection \<open>\<open>run_command\<close>\<close>

text \<open>
  \<open>subprocess.run(cmd, shell=shell, check=True, capture_output=True, text=True)\<close>: with
  \<open>check=True\<close> a non-zero return code raises \<open>CalledProcessError\<close>, which carries the
  captured streams; a process that cannot be started raises \<open>OSError\<close>. How the command
  line is started (\<open>shell\<close> is always true in this script) belongs to the tools.
  \<open>run_command\<close> catches \<open>CalledProcessError\<close> and nothing else.
\<close>

definition subprocess_run :: "tools \<Rightarrow> string \<Rightarrow> world \<Rightarrow> (exn + string \<times> string) \<times> world" where
  "subprocess_run tools cmd w =
     (case tools cmd (dir w) of
        (p, d') \<Rightarrow>
          (let w' = (emit (Run cmd) w)\<lparr>dir := d'\<rparr> in
           case p of
             Exited rc out err \<Rightarrow>
               if rc \<noteq> 0 then (Inl (CalledProcessError rc out err), w')
               else (Inr (out, err), w')
           | NotStarted msg \<Rightarrow> (Inl (OSError msg), w')))"

definition run_command :: "tools \<Rightarrow> string \<Rightarrow> world \<Rightarrow> (exn + bool \<times> string \<times> string) \<times> world" where
  "run_command tools cmd w =
     (case subprocess_run tools cmd w of
        (Inr (out, err), w') \<Rightarrow> (Inr (True, out, err), w')
      | (Inl (CalledProcessError rc out err), w') \<Rightarrow> (Inr (False, out, err), w')
      | (Inl e, w') \<Rightarrow> (Inl e, w'))"

subsection \<open>\<open>check_if_transpilation_needed\<close>\<close>

text \<open>Python's \<open>max\<close> and \<open>min\<close> of an iterable raise \<open>ValueError\<close> on an empty one.\<close>

fun py_max :: "real list \<Rightarrow> exn + real" where
  "py_max [] = Inl (ValueError ''max() arg is an empty sequence'')"
| "py_max (x # xs) = Inr (fold max xs x)"

fun py_min :: "real list \<Rightarrow> exn + real" where
  "py_min [] = Inl (ValueError ''min() arg is an empty sequence'')"
| "py_min (x # xs) = Inr (fold min xs x)"

definition check_if_transpilation_needed :: "world \<Rightarrow> (exn + bool) \<times> world" where
  "check_if_transpilation_needed w =
     (let src_files = glob ''*.cn'' (src (dir w)) @ glob ''*.cnm'' (src (dir w));
          generated_files = glob ''*.cpp'' (src (dir w)) @ glob ''*.h'' (src (dir w));
          w1 = emits [Glob ''src'' ''*.cn'', Glob ''src'' ''*.cnm'',
                      Glob ''src'' ''*.cpp'', Glob ''src'' ''*.h''] w
      in if src_files = [] then (Inr False, w1)
         else if generated_files = [] then (Inr True, w1)
         else
           (let w2 = emits (map (\<lambda>f. Stat (fst f)) src_files) w1 in
            case py_max (map (\<lambda>f. st_mtime (snd f)) src_files) of
              Inl e \<Rightarrow> (Inl e, w2)
            | Inr newest_src_time \<Rightarrow>
                (let w3 = emits (map (\<lambda>f. Stat (fst f)) generated_files) w2 in
                 case py_min (map (\<lambda>f. st_mtime (snd f)) generated_files) of
                   Inl e \<Rightarrow> (Inl e, w3)
                 | Inr oldest_gen_time \<Rightarrow> (Inr (newest_src_time > oldest_gen_time), w3))))"

text \<open>
  The reference definition, in the words of the specification: \<open>S\<close> is the set of
  source artifacts and \<open>G\<close> the set of generated artifacts, each a path with its file.
\<close>

definition mtimes :: "(string \<times> regular) set \<Rightarrow> real set" where
  "mtimes A = (\<lambda>f. st_mtime (snd f)) ` A"

definition needsRegeneration :: "(string \<times> regular) set \<Rightarrow> (string \<times> regular) set \<Rightarrow> bool" where
  "needsRegeneration S G =
     (if S = {} then False
      else if G = {} then True
      else Max (mtimes S) > Min (mtimes G))"

definition source_artifacts :: "project_dir \<Rightarrow> (string \<times> regular) set" where
  "source_artifacts d = {f \<in> set (src d). fnmatch (fst f) ''*.cn'' \<or> fnmatch (fst f) ''*.cnm''}"

definition generated_artifacts :: "project_dir \<Rightarrow> (string \<times> regular) set" where
  "generated_artifacts d = {f \<in> set (src d). fnmatch (fst f) ''*.cpp'' \<or> fnmatch (fst f) ''*.h''}"

subsection \<open>\<open>main\<close>\<close>

definition compile_cmd :: string where
  "compile_cmd = ''npx tsc cnext-build.ts --target es2022 --module node16 --outDir .pio/build''"

definition transpile_cmd :: string where
  "transpile_cmd = ''node .pio/build/cnext-build.js''"

text \<open>
  \<open>shutil.copy2(file_path, dest_path)\<close> with \<open>dest_path = src_dir / file_path.name\<close>:
  opening a directory for reading raises \<open>IsADirectoryError\<close>; a regular file is
  written under its own name into \<open>src/\<close>, over a file of that name if there is one,
  together with its modification time.
\<close>

definition copy2 :: "string \<Rightarrow> node \<Rightarrow> world \<Rightarrow> (exn + unit) \<times> world" where
  "copy2 name n w =
     (let w' = emit (Copy2 (''generated/'' @ name) (''src/'' @ name)) w in
      case n of
        Dir entries \<Rightarrow> (Inl (IsADirectoryError (''generated/'' @ name)), w')
      | Reg f \<Rightarrow> (Inr (), w'\<lparr>dir := (dir w')\<lparr>src := AList.update name f (src (dir w'))\<rparr>\<rparr>))"

text \<open>The inner loop, \<open>for file_path in generated_dir.glob(pattern)\<close>.\<close>

fun copy_files :: "(string \<times> node) list \<Rightarrow> world \<Rightarrow> (exn + unit) \<times> world" where
  "copy_files [] w = (Inr (), w)"
| "copy_files ((name, n) # rest) w =
     (case copy2 name n w of
        (Inl e, w') \<Rightarrow> (Inl e, w')
      | (Inr u, w') \<Rightarrow> copy_files rest (emit (Print (Copied name)) w'))"

text \<open>\<open>generated_dir.glob(pattern)\<close>: nothing unless \<open>generated\<close> is a directory.\<close>

definition path_glob :: "node option \<Rightarrow> string \<Rightarrow> (string \<times> node) list" where
  "path_glob d pattern =
     (case d of Some (Dir entries) \<Rightarrow> glob pattern entries | _ \<Rightarrow> [])"

text \<open>The outer loop, \<open>for pattern in ["*.cpp", "*.h"]\<close>.\<close>

fun copy_patterns :: "string list \<Rightarrow> world \<Rightarrow> (exn + unit) \<times> world" where
  "copy_patterns [] w = (Inr (), w)"
| "copy_patterns (pattern # rest) w =
     (let w1 = emit (Glob ''generated'' pattern) w in
      case copy_files (path_glob (generated (dir w1)) pattern) w1 of
        (Inl e, w') \<Rightarrow> (Inl e, w')
      | (Inr u, w') \<Rightarrow> copy_patterns rest w')"

text \<open>
  The staging step of \<open>main\<close> (from \<open>generated_dir = Path("generated")\<close> to the end of
  the loops), which the specification calls the artifact stager.
\<close>

definition stage_artifacts :: "world \<Rightarrow> (exn + unit) \<times> world" where
  "stage_artifacts w =
     (let w1 = emit (Exists ''generated'') w in
      if generated (dir w1) \<noteq> None then
        copy_patterns [''*.cpp'', ''*.h''] (emit (Print CopyingGenerated) w1)
      else (Inr (), w1))"

text \<open>The body of the \<open>try\<close> statement of \<open>main\<close>. \<open>sys.exit(1)\<close> raises \<open>SystemExit\<close>.\<close>

definition main_try :: "tools \<Rightarrow> world \<Rightarrow> (abrupt + unit) \<times> world" where
  "main_try tools w =
     (let w1 = emits [Print StartingTranspilation, Print ForceTranspiling,
                      Print CompilingBuildScript] w in
      case run_command tools compile_cmd w1 of
        (Inl e, w2) \<Rightarrow> (Inl (Raised e), w2)
      | (Inr (success, out, err), w2) \<Rightarrow>
          if \<not> success then (Inl (SystemExit 1), emit (Print (CompilationFailed err)) w2)
          else
            (case run_command tools transpile_cmd (emit (Print RunningTranspilation) w2) of
               (Inl e, w3) \<Rightarrow> (Inl (Raised e), w3)
             | (Inr (success, out, err), w3) \<Rightarrow>
                 if \<not> success
                 then (Inl (SystemExit 1), emit (Print (TranspilationFailed err)) w3)
                 else
                   (case stage_artifacts (emit (Print (Output out)) w3) of
                      (Inl e, w4) \<Rightarrow> (Inl (Raised e), w4)
                    | (Inr u, w4) \<Rightarrow> (Inr (), emit (Print Completed) w4))))"

text \<open>
  \<open>main\<close>: the \<open>try\<close> body under its handler \<open>except Exception as e\<close>, which prints the
  message and the traceback and lets \<open>main\<close> return normally.
\<close>

definition main :: "tools \<Rightarrow> world \<Rightarrow> (abrupt + unit) \<times> world" where
  "main tools w =
     (case main_try tools (emit (Print DebugStarting) w) of
        (Inl (Raised e), w') \<Rightarrow> (Inr (), emit (PrintExc e) (emit (Print (Error e)) w'))
      | (Inl (SystemExit n), w') \<Rightarrow> (Inl (SystemExit n), w')
      | (Inr u, w') \<Rightarrow> (Inr (), w'))"

text \<open>
  The whole script: the first \<open>print\<close>, then \<open>main()\<close>. The process status is 0 when
  the module runs to its end, the argument of \<open>sys.exit\<close> when \<open>SystemExit\<close> reaches
  the interpreter, and 1 (after a traceback) for any other uncaught exception.
\<close>

definition script :: "tools \<Rightarrow> project_dir \<Rightarrow> int \<times> world" where
  "script tools d =
     (case main tools (emit (Print ScriptStarting) \<lparr>dir = d, trace = []\<rparr>) of
        (Inr u, w) \<Rightarrow> (0, w)
      | (Inl (SystemExit n), w) \<Rightarrow> (n, w)
      | (Inl (Raised e), w) \<Rightarrow> (1, emit (PrintExc e) w))"

subsection \<open>What a run shows\<close>

text \<open>The commands handed to \<open>subprocess.run\<close>, in order.\<close>

fun invoked :: "event list \<Rightarrow> string list" where
  "invoked [] = []"
| "invoked (Run c # es) = c # invoked es"
| "invoked (e # es) = invoked es"

text \<open>The calls of \<open>shutil.copy2\<close>, as pairs of source and destination path.\<close>

fun copy_calls :: "event list \<Rightarrow> (string \<times> string) list" where
  "copy_calls [] = []"
| "copy_calls (Copy2 a b # es) = (a, b) # copy_calls es"
| "copy_calls (e # es) = copy_calls es"

text \<open>The names reported as copied, one line per completed copy.\<close>

fun copied :: "event list \<Rightarrow> string list" where
  "copied [] = []"
| "copied (Print (Copied n) # es) = n # copied es"
| "copied (e # es) = copied es"

text \<open>
  What \<open>run_command\<close> returns for a command that finds the directory \<open>d\<close>, and the
  directory the command leaves.
\<close>

definition command_result :: "tools \<Rightarrow> string \<Rightarrow> project_dir \<Rightarrow> exn + bool \<times> string \<times> string" where
  "command_result tools cmd d = fst (run_command tools cmd \<lparr>dir = d, trace = []\<rparr>)"

definition after :: "tools \<Rightarrow> string \<Rightarrow> project_dir \<Rightarrow> project_dir" where
  "after tools cmd d = snd (tools cmd d)"

subsection \<open>The staging step in closed form\<close>

text \<open>
  The entries of \<open>generated/\<close> that the two loops visit, in the order they visit them.
\<close>

definition artifacts :: "node option \<Rightarrow> (string \<times> node) list" where
  "artifacts g = path_glob g ''*.cpp'' @ path_glob g ''*.h''"

text \<open>
  The regular files a loop over the entries copies before it meets a directory, and
  whether it meets one.
\<close>

fun staged :: "(string \<times> node) list \<Rightarrow> (string \<times> regular) list" where
  "staged [] = []"
| "staged ((name, Reg f) # rest) = (name, f) # staged rest"
| "staged ((name, Dir entries) # rest) = []"

fun blocked :: "(string \<times> node) list \<Rightarrow> exn + unit" where
  "blocked [] = Inr ()"
| "blocked ((name, Reg f) # rest) = blocked rest"
| "blocked ((name, Dir entries) # rest) = Inl (IsADirectoryError (''generated/'' @ name))"

text \<open>The entries \<open>copy2\<close> is called on: those copied, and the directory that stops the loop.\<close>

fun attempted :: "(string \<times> node) list \<Rightarrow> string list" where
  "attempted [] = []"
| "attempted ((name, Reg f) # rest) = name # attempted rest"
| "attempted ((name, Dir entries) # rest) = [name]"

definition copy_call :: "string \<Rightarrow> string \<times> string" where
  "copy_call name = (''generated/'' @ name, ''src/'' @ name)"

text \<open>
  Writing files into a directory, one after the other.
\<close>

definition write_all :: "(string \<times> regular) list \<Rightarrow> (string \<times> regular) list \<Rightarrow> (string \<times> regular) list" where
  "write_all ups s = fold (\<lambda>u. AList.update (fst u) (snd u)) ups s"

text \<open>
  The events the staging step can leave in the trace, and those only the staleness
  detector leaves.
\<close>

fun staging_event :: "event \<Rightarrow> bool" where
  "staging_event (Print l) = True"
| "staging_event (Exists p) = (p = ''generated'')"
| "staging_event (Glob p q) = (p = ''generated'')"
| "staging_event (Copy2 a b) = True"
| "staging_event e = False"

fun detector_event :: "event \<Rightarrow> bool" where
  "detector_event (Glob p q) = (p = ''src'')"
| "detector_event (Stat n) = True"
| "detector_event e = False"

text \<open>
  The world in which the \<open>try\<close> body of \<open>main\<close> starts.
\<close>

definition initial :: "project_dir \<Rightarrow> world" where
  "initial d = emit (Print DebugStarting) (emit (Print ScriptStarting) \<lparr>dir = d, trace = []\<rparr>)"

text \<open>
  The names of the regular files directly in \<open>generated/\<close> that match \<open>*.cpp\<close> or \<open>*.h\<close>.
\<close>

definition top_level_artifacts :: "project_dir \<Rightarrow> string set" where
  "top_level_artifacts d =
     {n. \<exists>entries f. generated d = Some (Dir entries) \<and> (n, Reg f) \<in> set entries
           \<and> (fnmatch n ''*.cpp'' \<or> fnmatch n ''*.h'')}"

text \<open>
  A list of entries with the first entry of each name in a map replaced by the map's
  value: what a directory looks like once files have been written over existing ones.
\<close>

fun overlay :: "(string \<rightharpoonup> regular) \<Rightarrow> (string \<times> regular) list \<Rightarrow> (string \<times> regular) list" where
  "overlay M [] = []"
| "overlay M (p # ps) =
     (fst p, case M (fst p) of None \<Rightarrow> snd p | Some v \<Rightarrow> v) # overlay (M(fst p := None)) ps"

subsection \<open>Example runs\<close>

text \<open>
  A project with one source file and a stale generated file, and tools for the runs
  the properties below are checked on: a compiler that reports an error, a transpiler
  that fails, a shell that cannot be started, a runtime that cannot be started, a
  toolchain that works and leaves two artifacts, a log and a sub-directory (and, in
  its second variant, a directory whose name looks like a header), and tools that
  succeed without touching anything. Then a project whose generated files are up to
  date, and one that already holds the output of the toolchain.
\<close>

definition example_dir :: project_dir where
  "example_dir =
     \<lparr>src = [(''main.cn'', File 100 ''u8 led;''), (''main.cpp'', File 50 ''// old'')],
      generated = None\<rparr>"

definition tsc_fails :: tools where
  "tsc_fails cmd d = (Exited 2 ''error TS1005'' [], d)"

definition node_fails :: tools where
  "node_fails cmd d =
     (if cmd = compile_cmd then (Exited 0 [] [], d) else (Exited 1 [] ''parse error'', d))"

definition no_shell :: tools where
  "no_shell cmd d = (NotStarted ''No such file or directory: /bin/sh'', d)"

definition no_node :: tools where
  "no_node cmd d =
     (if cmd = compile_cmd then (Exited 0 [] [], d)
      else (NotStarted ''Resource temporarily unavailable'', d))"

definition fresh_output :: "(string \<times> node) list" where
  "fresh_output =
     [(''main.h'', Reg (File 201 ''extern int led;'')),
      (''notes.txt'', Reg (File 202 ''log'')),
      (''sub'', Dir [(''deep.h'', Reg (File 203 ''// deep''))]),
      (''main.cpp'', Reg (File 200 ''int led;''))]"

definition toolchain :: tools where
  "toolchain cmd d =
     (if cmd = compile_cmd then (Exited 0 [] [], d)
      else (Exited 0 ''transpiled 1 file'' [], d\<lparr>generated := Some (Dir fresh_output)\<rparr>))"

definition toolchain_odd :: tools where
  "toolchain_odd cmd d =
     (if cmd = compile_cmd then (Exited 0 [] [], d)
      else (Exited 0 ''transpiled 1 file'' [],
            d\<lparr>generated := Some (Dir (fresh_output @ [(''odd.h'', Dir [])]))\<rparr>))"

definition quiet_tools :: tools where
  "quiet_tools cmd d = (Exited 0 [] [], d)"

definition fresh_dir :: project_dir where
  "fresh_dir =
     \<lparr>src = [(''main.cn'', File 30 ''u8 led;''), (''main.cpp'', File 50 ''int led;''),
             (''main.h'', File 200 ''extern int led;'')],
      generated = None\<rparr>"

definition staged_project :: project_dir where
  "staged_project =
     \<lparr>src = [(''main.cn'', File 100 ''u8 led;''), (''deep.h'', File 7 ''// mine''),
             (''main.cpp'', File 50 ''// old'')],
      generated = Some (Dir fresh_output)\<rparr>"

section \<open>Properties\<close>

subsection \<open>The staleness detector\<close>

lemma fold_max_Max: "fold max xs (x::real) = Max (set (x # xs))"
  by (rule Max.set_eq_fold [symmetric])

lemma fold_min_Min: "fold min xs (x::real) = Min (set (x # xs))"
  by (rule Min.set_eq_fold [symmetric])

lemma py_max_Max: "xs \<noteq> [] \<Longrightarrow> py_max xs = Inr (Max (set xs))"
  by (cases xs) (simp_all add: fold_max_Max)

lemma py_min_Min: "xs \<noteq> [] \<Longrightarrow> py_min xs = Inr (Min (set xs))"
  by (cases xs) (simp_all add: fold_min_Min)

lemma set_src_files:
  "set (glob ''*.cn'' (src d) @ glob ''*.cnm'' (src d)) = source_artifacts d"
  by (auto simp: glob_def source_artifacts_def)

lemma set_generated_files:
  "set (glob ''*.cpp'' (src d) @ glob ''*.h'' (src d)) = generated_artifacts d"
  by (auto simp: glob_def generated_artifacts_def)

text \<open>
  C1. The staleness detector always returns, and what it returns is the reference
  definition applied to the \<open>*.cn\<close>/\<open>*.cnm\<close> files and the \<open>*.cpp\<close>/\<open>*.h\<close> files of
  \<open>src/\<close>: false without sources, true with sources and nothing generated, and
  otherwise whether the newest source is strictly newer than the oldest generated file.
\<close>

theorem check_if_transpilation_needed_refines:
  "fst (check_if_transpilation_needed w) =
     Inr (needsRegeneration (source_artifacts (dir w)) (generated_artifacts (dir w)))"
proof -
  let ?S = "glob ''*.cn'' (src (dir w)) @ glob ''*.cnm'' (src (dir w))"
  let ?G = "glob ''*.cpp'' (src (dir w)) @ glob ''*.h'' (src (dir w))"
  have S: "set ?S = source_artifacts (dir w)" by (rule set_src_files)
  have G: "set ?G = generated_artifacts (dir w)" by (rule set_generated_files)
  show ?thesis
  proof (cases "?S = []")
    case True
    with S have "source_artifacts (dir w) = {}" by simp
    with True show ?thesis
      by (simp add: check_if_transpilation_needed_def needsRegeneration_def Let_def)
  next
    case nS: False
    with S have S': "source_artifacts (dir w) \<noteq> {}" by auto
    show ?thesis
    proof (cases "?G = []")
      case True
      with G have "generated_artifacts (dir w) = {}" by simp
      with True nS S' show ?thesis
        by (simp add: check_if_transpilation_needed_def needsRegeneration_def Let_def)
    next
      case nG: False
      with G have G': "generated_artifacts (dir w) \<noteq> {}" by auto
      have "map (\<lambda>f. st_mtime (snd f)) ?S \<noteq> []"
        using nS by simp
      then have "py_max (map (\<lambda>f. st_mtime (snd f)) ?S) = Inr (Max (set (map (\<lambda>f. st_mtime (snd f)) ?S)))"
        by (rule py_max_Max)
      moreover have "set (map (\<lambda>f. st_mtime (snd f)) ?S) = mtimes (source_artifacts (dir w))"
        unfolding mtimes_def S [symmetric] by (simp only: set_map)
      ultimately have mx: "py_max (map (\<lambda>f. st_mtime (snd f)) ?S) = Inr (Max (mtimes (source_artifacts (dir w))))"
        by (simp only:)
      have "map (\<lambda>f. st_mtime (snd f)) ?G \<noteq> []"
        using nG by simp
      then have "py_min (map (\<lambda>f. st_mtime (snd f)) ?G) = Inr (Min (set (map (\<lambda>f. st_mtime (snd f)) ?G)))"
        by (rule py_min_Min)
      moreover have "set (map (\<lambda>f. st_mtime (snd f)) ?G) = mtimes (generated_artifacts (dir w))"
        unfolding mtimes_def G [symmetric] by (simp only: set_map)
      ultimately have mn: "py_min (map (\<lambda>f. st_mtime (snd f)) ?G) = Inr (Min (mtimes (generated_artifacts (dir w))))"
        by (simp only:)
      show ?thesis
        using nS nG S' G' mx mn
        by (auto simp add: check_if_transpilation_needed_def needsRegeneration_def Let_def)
    qed
  qed
qed


text \<open>
  The examples of the specification, a tie, and the two cases with an empty set.
\<close>

lemma spec_examples:
  "fst (check_if_transpilation_needed
     \<lparr>dir = \<lparr>src = [(''a.cn'', File 100 []), (''a.cpp'', File 50 []), (''a.h'', File 200 [])],
              generated = None\<rparr>, trace = []\<rparr>) = Inr True"
  "fst (check_if_transpilation_needed
     \<lparr>dir = \<lparr>src = [(''a.cn'', File 30 []), (''a.cpp'', File 50 []), (''a.h'', File 200 [])],
              generated = None\<rparr>, trace = []\<rparr>) = Inr False"
  "fst (check_if_transpilation_needed
     \<lparr>dir = \<lparr>src = [(''a.cn'', File 50 []), (''a.cpp'', File 50 []), (''a.h'', File 200 [])],
              generated = None\<rparr>, trace = []\<rparr>) = Inr False"
  "fst (check_if_transpilation_needed
     \<lparr>dir = \<lparr>src = [(''a.cn'', File 50 [])], generated = None\<rparr>, trace = []\<rparr>) = Inr True"
  "fst (check_if_transpilation_needed
     \<lparr>dir = \<lparr>src = [(''a.cpp'', File 50 [])], generated = None\<rparr>, trace = []\<rparr>) = Inr False"
  by (simp_all add: check_if_transpilation_needed_def glob_def Let_def)

subsection \<open>\<open>run_command\<close>\<close>

lemma run_command_eq:
  "run_command tools cmd w =
     (command_result tools cmd (dir w), (emit (Run cmd) w)\<lparr>dir := after tools cmd (dir w)\<rparr>)"
  by (simp add: run_command_def subprocess_run_def command_result_def after_def emit_def Let_def
      split: prod.splits proc.splits sum.splits exn.splits)

lemma command_result_cases:
  "command_result tools cmd d =
     (case fst (tools cmd d) of
        Exited rc out err \<Rightarrow> Inr (rc = 0, out, err)
      | NotStarted msg \<Rightarrow> Inl (OSError msg))"
  by (simp add: run_command_def subprocess_run_def command_result_def emit_def Let_def
      split: prod.splits proc.splits sum.splits exn.splits)



subsection \<open>Failure of a stage\<close>

lemma cmds_differ: "compile_cmd \<noteq> transpile_cmd"
  by (simp add: compile_cmd_def transpile_cmd_def)

text \<open>
  C2. When \<open>run_command\<close> returns a failed result for the compilation of the build
  script, the script prints the captured standard error and exits with status 1; the
  compiler is the only command it has run, so the transpiler is invoked zero times.
\<close>

theorem compile_failure_exits_1:
  assumes "command_result tools compile_cmd d = Inr (False, out, err)"
  shows "script tools d =
           (1, \<lparr>dir = after tools compile_cmd d,
                trace = [Print ScriptStarting, Print DebugStarting, Print StartingTranspilation,
                         Print ForceTranspiling, Print CompilingBuildScript, Run compile_cmd,
                         Print (CompilationFailed err)]\<rparr>)
         \<and> invoked (trace (snd (script tools d))) = [compile_cmd]
         \<and> count_list (invoked (trace (snd (script tools d)))) transpile_cmd = 0"
  using assms
  by (simp add: script_def main_def main_try_def run_command_eq emit_def emits_def
      compile_cmd_def transpile_cmd_def)

theorem compile_failure_exits_1_witness:
  "command_result tsc_fails compile_cmd example_dir = Inr (False, ''error TS1005'', [])
   \<and> fst (script tsc_fails example_dir) = 1
   \<and> invoked (trace (snd (script tsc_fails example_dir))) = [compile_cmd]
   \<and> count_list (invoked (trace (snd (script tsc_fails example_dir)))) transpile_cmd = 0"
proof -
  have h: "command_result tsc_fails compile_cmd example_dir = Inr (False, ''error TS1005'', [])"
    by (simp add: command_result_cases tsc_fails_def)
  from compile_failure_exits_1 [OF h] h show ?thesis
    by (simp add: cmds_differ)
qed

text \<open>
  C3. When the compilation succeeds and \<open>run_command\<close> returns a failed result for the
  transpiler, the script prints the captured standard error and exits with status 1.
  Nothing of the staging step happens: \<open>generated/\<close> is not looked at, \<open>copy2\<close> is never
  called, and the directory is left as the transpiler left it.
\<close>

theorem transpile_failure_exits_1:
  assumes "command_result tools compile_cmd d = Inr (True, out1, err1)"
    and "command_result tools transpile_cmd (after tools compile_cmd d) = Inr (False, out, err)"
  shows "script tools d =
           (1, \<lparr>dir = after tools transpile_cmd (after tools compile_cmd d),
                trace = [Print ScriptStarting, Print DebugStarting, Print StartingTranspilation,
                         Print ForceTranspiling, Print CompilingBuildScript, Run compile_cmd,
                         Print RunningTranspilation, Run transpile_cmd,
                         Print (TranspilationFailed err)]\<rparr>)
         \<and> copy_calls (trace (snd (script tools d))) = []
         \<and> copied (trace (snd (script tools d))) = []"
  using assms
  by (simp add: script_def main_def main_try_def run_command_eq emit_def emits_def)

theorem transpile_failure_exits_1_witness:
  "command_result node_fails compile_cmd example_dir = Inr (True, [], [])
   \<and> command_result node_fails transpile_cmd (after node_fails compile_cmd example_dir)
       = Inr (False, [], ''parse error'')
   \<and> fst (script node_fails example_dir) = 1
   \<and> dir (snd (script node_fails example_dir)) = example_dir
   \<and> copy_calls (trace (snd (script node_fails example_dir))) = []"
proof -
  have h1: "command_result node_fails compile_cmd example_dir = Inr (True, [], [])"
    by (simp add: command_result_cases node_fails_def)
  have h2: "command_result node_fails transpile_cmd (after node_fails compile_cmd example_dir)
              = Inr (False, [], ''parse error'')"
    by (simp add: command_result_cases node_fails_def after_def compile_cmd_def transpile_cmd_def)
  from transpile_failure_exits_1 [OF h1 h2] h1 h2 show ?thesis
    by (simp add: after_def node_fails_def)
qed


subsection \<open>The staging step\<close>

lemma copied_append: "copied (xs @ ys) = copied xs @ copied ys"
  by (induction xs rule: copied.induct) simp_all

lemma invoked_append: "invoked (xs @ ys) = invoked xs @ invoked ys"
  by (induction xs rule: invoked.induct) simp_all

lemma copy_calls_append: "copy_calls (xs @ ys) = copy_calls xs @ copy_calls ys"
  by (induction xs rule: copy_calls.induct) simp_all

lemma copy_files_fst: "fst (copy_files L w) = blocked L"
  by (induction L arbitrary: w rule: staged.induct) (simp_all add: copy2_def Let_def)

lemma copy_files_dir:
  "dir (snd (copy_files L w)) = (dir w)\<lparr>src := write_all (staged L) (src (dir w))\<rparr>"
  by (induction L arbitrary: w rule: staged.induct)
     (simp_all add: copy2_def Let_def emit_def write_all_def)

lemma copy_files_trace:
  "\<exists>es. trace (snd (copy_files L w)) = trace w @ es \<and> list_all staging_event es
     \<and> copied es = map fst (staged L) \<and> copy_calls es = map copy_call (attempted L)"
proof (induction L arbitrary: w rule: staged.induct)
  case 1
  then show ?case by simp
next
  case (2 name f rest)
  let ?w = "emit (Print (Copied name))
             ((emit (Copy2 (''generated/'' @ name) (''src/'' @ name)) w)
               \<lparr>dir := (dir w)\<lparr>src := AList.update name f (src (dir w))\<rparr>\<rparr>)"
  from 2 [of ?w] obtain es where
    "trace (snd (copy_files rest ?w)) = trace ?w @ es" "list_all staging_event es"
    "copied es = map fst (staged rest)" "copy_calls es = map copy_call (attempted rest)"
    by blast
  then show ?case
    by (intro exI [of _ "[Copy2 (''generated/'' @ name) (''src/'' @ name), Print (Copied name)] @ es"])
       (simp add: copy2_def Let_def emit_def copy_call_def)
next
  case (3 name entries rest)
  show ?case
    by (intro exI [of _ "[Copy2 (''generated/'' @ name) (''src/'' @ name)]"])
       (simp add: copy2_def Let_def emit_def copy_call_def)
qed

lemma blocked_append:
  "blocked (A @ B) = (case blocked A of Inl e \<Rightarrow> Inl e | Inr u \<Rightarrow> blocked B)"
  by (induction A rule: staged.induct) simp_all

lemma staged_append:
  "staged (A @ B) = (case blocked A of Inl e \<Rightarrow> staged A | Inr u \<Rightarrow> staged A @ staged B)"
  by (induction A rule: staged.induct) (simp_all split: sum.splits)

lemma attempted_append:
  "attempted (A @ B) = (case blocked A of Inl e \<Rightarrow> attempted A | Inr u \<Rightarrow> attempted A @ attempted B)"
  by (induction A rule: staged.induct) (simp_all split: sum.splits)

lemma write_all_append: "write_all (A @ B) s = write_all B (write_all A s)"
  by (simp add: write_all_def)

lemma copy_files_summary:
  obtains es where
    "copy_files L w =
       (blocked L, \<lparr>dir = (dir w)\<lparr>src := write_all (staged L) (src (dir w))\<rparr>, trace = trace w @ es\<rparr>)"
    "list_all staging_event es" "copied es = map fst (staged L)"
    "copy_calls es = map copy_call (attempted L)"
proof -
  from copy_files_trace [of L w] obtain es where
    es: "trace (snd (copy_files L w)) = trace w @ es" "list_all staging_event es"
      "copied es = map fst (staged L)" "copy_calls es = map copy_call (attempted L)" by blast
  have "copy_files L w = (fst (copy_files L w), snd (copy_files L w))" by simp
  also have "snd (copy_files L w) =
      \<lparr>dir = (dir w)\<lparr>src := write_all (staged L) (src (dir w))\<rparr>, trace = trace w @ es\<rparr>"
    using es(1) copy_files_dir [of L w] by (cases "snd (copy_files L w)") simp
  finally show thesis using es(2,3,4) that by (simp add: copy_files_fst)
qed

lemma copy_patterns_summary:
  obtains es where
    "copy_patterns [''*.cpp'', ''*.h''] w =
       (blocked (artifacts (generated (dir w))),
        \<lparr>dir = (dir w)\<lparr>src := write_all (staged (artifacts (generated (dir w)))) (src (dir w))\<rparr>,
         trace = trace w @ es\<rparr>)"
    "list_all staging_event es" "copied es = map fst (staged (artifacts (generated (dir w))))"
    "copy_calls es = map copy_call (attempted (artifacts (generated (dir w))))"
proof -
  let ?g = "generated (dir w)"
  let ?A = "path_glob ?g ''*.cpp''" and ?B = "path_glob ?g ''*.h''"
  let ?w1 = "emit (Glob ''generated'' ''*.cpp'') w"
  obtain es1 where 1:
    "copy_files ?A ?w1 =
       (blocked ?A, \<lparr>dir = (dir ?w1)\<lparr>src := write_all (staged ?A) (src (dir ?w1))\<rparr>, trace = trace ?w1 @ es1\<rparr>)"
    "list_all staging_event es1" "copied es1 = map fst (staged ?A)"
    "copy_calls es1 = map copy_call (attempted ?A)"
    by (rule copy_files_summary)
  let ?w2 = "\<lparr>dir = (dir ?w1)\<lparr>src := write_all (staged ?A) (src (dir ?w1))\<rparr>, trace = trace ?w1 @ es1\<rparr>"
  let ?w3 = "emit (Glob ''generated'' ''*.h'') ?w2"
  obtain es2 where 2:
    "copy_files ?B ?w3 =
       (blocked ?B, \<lparr>dir = (dir ?w3)\<lparr>src := write_all (staged ?B) (src (dir ?w3))\<rparr>, trace = trace ?w3 @ es2\<rparr>)"
    "list_all staging_event es2" "copied es2 = map fst (staged ?B)"
    "copy_calls es2 = map copy_call (attempted ?B)"
    by (rule copy_files_summary)
  show thesis
  proof (cases "blocked ?A")
    case (Inl e)
    show thesis
      by (rule that [of "Glob ''generated'' ''*.cpp'' # es1"])
         (use 1 Inl in \<open>simp_all add: Let_def emit_def artifacts_def blocked_append staged_append attempted_append\<close>)
  next
    case (Inr u)
    show thesis
      by (rule that [of "Glob ''generated'' ''*.cpp'' # es1 @ Glob ''generated'' ''*.h'' # es2"])
         (use 1 2 Inr in \<open>simp_all add: Let_def emit_def artifacts_def blocked_append staged_append attempted_append write_all_append copied_append copy_calls_append split: sum.splits\<close>)
  qed
qed

lemma stage_artifacts_summary:
  obtains es where
    "stage_artifacts w =
       (blocked (artifacts (generated (dir w))),
        \<lparr>dir = (dir w)\<lparr>src := write_all (staged (artifacts (generated (dir w)))) (src (dir w))\<rparr>,
         trace = trace w @ es\<rparr>)"
    "list_all staging_event es" "copied es = map fst (staged (artifacts (generated (dir w))))"
    "copy_calls es = map copy_call (attempted (artifacts (generated (dir w))))"
proof (cases "generated (dir w)")
  case None
  show thesis
    by (rule that [of "[Exists ''generated'']"])
       (use None in \<open>simp_all add: stage_artifacts_def Let_def emit_def artifacts_def path_glob_def write_all_def\<close>)
next
  case (Some n)
  let ?w = "emit (Print CopyingGenerated) (emit (Exists ''generated'') w)"
  obtain es where 1:
    "copy_patterns [''*.cpp'', ''*.h''] ?w =
       (blocked (artifacts (generated (dir ?w))),
        \<lparr>dir = (dir ?w)\<lparr>src := write_all (staged (artifacts (generated (dir ?w)))) (src (dir ?w))\<rparr>,
         trace = trace ?w @ es\<rparr>)"
    "list_all staging_event es" "copied es = map fst (staged (artifacts (generated (dir ?w))))"
    "copy_calls es = map copy_call (attempted (artifacts (generated (dir ?w))))"
    by (rule copy_patterns_summary)
  show thesis
    by (rule that [of "Exists ''generated'' # Print CopyingGenerated # es"])
       (use 1 Some in \<open>simp_all add: stage_artifacts_def Let_def emit_def del: copy_patterns.simps\<close>)
qed


subsection \<open>The whole run\<close>

lemma script_eq:
  "script tools d =
     (case main_try tools (initial d) of
        (Inl (Raised e), w') \<Rightarrow> (0, emit (PrintExc e) (emit (Print (Error e)) w'))
      | (Inl (SystemExit n), w') \<Rightarrow> (n, w')
      | (Inr u, w') \<Rightarrow> (0, w'))"
  by (simp add: script_def main_def initial_def split: prod.splits sum.splits abrupt.splits)

lemma main_try_eq:
  "main_try tools (initial d) =
    (let w2 = \<lparr>dir = after tools compile_cmd d,
                trace = [Print ScriptStarting, Print DebugStarting, Print StartingTranspilation,
                         Print ForceTranspiling, Print CompilingBuildScript, Run compile_cmd]\<rparr>;
         d2 = after tools transpile_cmd (after tools compile_cmd d);
         w3 = \<lparr>dir = d2, trace = trace w2 @ [Print RunningTranspilation, Run transpile_cmd]\<rparr>
     in case command_result tools compile_cmd d of
          Inl e \<Rightarrow> (Inl (Raised e), w2)
        | Inr (False, out, err) \<Rightarrow> (Inl (SystemExit 1), emit (Print (CompilationFailed err)) w2)
        | Inr (True, out, err) \<Rightarrow>
           (case command_result tools transpile_cmd (after tools compile_cmd d) of
              Inl e \<Rightarrow> (Inl (Raised e), w3)
            | Inr (False, out, err) \<Rightarrow> (Inl (SystemExit 1), emit (Print (TranspilationFailed err)) w3)
            | Inr (True, out, err) \<Rightarrow>
               (case stage_artifacts (emit (Print (Output out)) w3) of
                  (Inl e, w4) \<Rightarrow> (Inl (Raised e), w4)
                | (Inr u, w4) \<Rightarrow> (Inr (), emit (Print Completed) w4))))"
  by (simp add: main_try_def initial_def run_command_eq emit_def emits_def Let_def
      split: sum.splits prod.splits bool.splits)

lemma staging_event_quiet:
  "list_all staging_event es \<Longrightarrow> invoked es = [] \<and> \<not> list_ex detector_event es"
  by (induction es rule: invoked.induct) simp_all

lemma list_ex_append_iff: "list_ex P (xs @ ys) = (list_ex P xs \<or> list_ex P ys)"
  by (auto simp add: list_ex_iff)

lemma detector_leaves_event:
  "Glob ''src'' ''*.cn'' \<in> set (trace (snd (check_if_transpilation_needed w)))"
  by (simp add: check_if_transpilation_needed_def Let_def emits_def split: sum.splits)

subsection \<open>Exceptions\<close>

text \<open>
  C4. Whenever the \<open>try\<close> body of \<open>main\<close> ends with an exception (any \<open>Exception\<close>, which
  \<open>SystemExit\<close> is not), the handler catches it: the run goes on from the world the
  exception left with the line that prints its message and then its traceback, nothing
  else happens, and the process exits with status 0.
\<close>

theorem exception_is_swallowed:
  assumes "main_try tools (initial d) = (Inl (Raised e), w')"
  shows "fst (script tools d) = 0
         \<and> trace (snd (script tools d)) = trace w' @ [Print (Error e), PrintExc e]
         \<and> dir (snd (script tools d)) = dir w'"
  using assms by (simp add: script_eq emit_def)

text \<open>
  Two such runs: the shell cannot be started, and a directory among the generated
  headers stops the copying after two files.
\<close>

lemma odd_run:
  "main_try toolchain_odd (initial example_dir) =
     (Inl (Raised (IsADirectoryError ''generated/odd.h'')),
      \<lparr>dir = \<lparr>src = [(''main.cn'', File 100 ''u8 led;''), (''main.cpp'', File 200 ''int led;''),
                      (''main.h'', File 201 ''extern int led;'')],
               generated = Some (Dir (fresh_output @ [(''odd.h'', Dir [])]))\<rparr>,
        trace = [Print ScriptStarting, Print DebugStarting, Print StartingTranspilation,
                 Print ForceTranspiling, Print CompilingBuildScript, Run compile_cmd,
                 Print RunningTranspilation, Run transpile_cmd,
                 Print (Output ''transpiled 1 file''), Exists ''generated'',
                 Print CopyingGenerated, Glob ''generated'' ''*.cpp'',
                 Copy2 ''generated/main.cpp'' ''src/main.cpp'', Print (Copied ''main.cpp''),
                 Glob ''generated'' ''*.h'',
                 Copy2 ''generated/main.h'' ''src/main.h'', Print (Copied ''main.h''),
                 Copy2 ''generated/odd.h'' ''src/odd.h'']\<rparr>)"
  by (simp add: main_try_eq command_result_cases toolchain_odd_def after_def cmds_differ [symmetric]
      stage_artifacts_def copy2_def path_glob_def glob_def fresh_output_def example_dir_def
      emit_def Let_def)

theorem exception_is_swallowed_witness:
  "fst (main_try no_shell (initial example_dir))
     = Inl (Raised (OSError ''No such file or directory: /bin/sh''))
   \<and> fst (script no_shell example_dir) = 0
   \<and> trace (snd (script no_shell example_dir))
       = [Print ScriptStarting, Print DebugStarting, Print StartingTranspilation,
          Print ForceTranspiling, Print CompilingBuildScript, Run compile_cmd,
          Print (Error (OSError ''No such file or directory: /bin/sh'')),
          PrintExc (OSError ''No such file or directory: /bin/sh'')]
   \<and> fst (main_try toolchain_odd (initial example_dir))
     = Inl (Raised (IsADirectoryError ''generated/odd.h''))
   \<and> fst (script toolchain_odd example_dir) = 0
   \<and> copied (trace (snd (script toolchain_odd example_dir))) = [''main.cpp'', ''main.h'']
   \<and> drop 18 (trace (snd (script toolchain_odd example_dir)))
       = [Print (Error (IsADirectoryError ''generated/odd.h'')),
          PrintExc (IsADirectoryError ''generated/odd.h'')]"
proof -
  have h: "main_try no_shell (initial example_dir)
     = (Inl (Raised (OSError ''No such file or directory: /bin/sh'')),
        \<lparr>dir = example_dir,
         trace = [Print ScriptStarting, Print DebugStarting, Print StartingTranspilation,
                  Print ForceTranspiling, Print CompilingBuildScript, Run compile_cmd]\<rparr>)"
    by (simp add: main_try_eq command_result_cases no_shell_def after_def)
  from exception_is_swallowed [OF h] exception_is_swallowed [OF odd_run] h odd_run
  show ?thesis by simp
qed

text \<open>
  The runs in which the \<open>try\<close> body ends with an exception are exactly these: a command
  cannot be started, or both commands succeed and a directory stops the copying.
\<close>

lemma main_try_raises_iff:
  "fst (main_try tools (initial d)) = Inl (Raised e) \<longleftrightarrow>
     command_result tools compile_cmd d = Inl e
     \<or> (\<exists>out1 err1. command_result tools compile_cmd d = Inr (True, out1, err1)
          \<and> (command_result tools transpile_cmd (after tools compile_cmd d) = Inl e
              \<or> (\<exists>out2 err2.
                    command_result tools transpile_cmd (after tools compile_cmd d)
                      = Inr (True, out2, err2)
                    \<and> blocked (artifacts (generated
                          (after tools transpile_cmd (after tools compile_cmd d)))) = Inl e)))"
proof -
  have s: "fst (case stage_artifacts w of (Inl e, w4) \<Rightarrow> (Inl (Raised e), w4)
                 | (Inr u, w4) \<Rightarrow> (Inr (), emit (Print Completed) w4)) = Inl (Raised e)
           \<longleftrightarrow> blocked (artifacts (generated (dir w))) = Inl e" for w
  proof -
    obtain es where
      "stage_artifacts w =
         (blocked (artifacts (generated (dir w))),
          \<lparr>dir = (dir w)\<lparr>src := write_all (staged (artifacts (generated (dir w)))) (src (dir w))\<rparr>,
           trace = trace w @ es\<rparr>)"
      by (rule stage_artifacts_summary)
    then show ?thesis by (simp split: sum.splits)
  qed
  show ?thesis
  proof (cases "command_result tools compile_cmd d")
    case (Inl x)
    then show ?thesis by (simp add: main_try_eq)
  next
    case (Inr r)
    obtain ok out err where r: "r = (ok, out, err)" by (cases r)
    show ?thesis
    proof (cases "command_result tools transpile_cmd (after tools compile_cmd d)")
      case (Inl x)
      with Inr r show ?thesis by (cases ok) (simp_all add: main_try_eq)
    next
      case r2: (Inr r')
      obtain ok' out' err' where r': "r' = (ok', out', err')" by (cases r')
      from Inr r r2 r' show ?thesis
        by (cases ok; cases ok') (simp_all add: main_try_eq s emit_def)
    qed
  qed
qed

text \<open>
  C5, as the code has it. When a command cannot be started, \<open>run_command\<close> raises the
  \<open>OSError\<close> (it returns no result, failed or not). In \<open>main\<close> the handler catches it:
  whether it is the compiler or, after a successful compilation, the transpiler that
  cannot be started, no later command runs, nothing is copied, the message and the
  traceback are printed, and the process exits with status 0.
\<close>

theorem cannot_start_is_swallowed:
  "(fst (tools cmd (dir w)) = NotStarted msg \<longrightarrow>
      fst (run_command tools cmd w) = Inl (OSError msg))
   \<and> (fst (tools compile_cmd d) = NotStarted msg \<longrightarrow>
        script tools d =
          (0, \<lparr>dir = after tools compile_cmd d,
               trace = [Print ScriptStarting, Print DebugStarting, Print StartingTranspilation,
                        Print ForceTranspiling, Print CompilingBuildScript, Run compile_cmd,
                        Print (Error (OSError msg)), PrintExc (OSError msg)]\<rparr>))
   \<and> (fst (tools compile_cmd d) = Exited 0 out err
        \<and> fst (tools transpile_cmd (after tools compile_cmd d)) = NotStarted msg \<longrightarrow>
        script tools d =
          (0, \<lparr>dir = after tools transpile_cmd (after tools compile_cmd d),
               trace = [Print ScriptStarting, Print DebugStarting, Print StartingTranspilation,
                        Print ForceTranspiling, Print CompilingBuildScript, Run compile_cmd,
                        Print RunningTranspilation, Run transpile_cmd,
                        Print (Error (OSError msg)), PrintExc (OSError msg)]\<rparr>))"
  by (simp add: script_eq main_try_eq run_command_eq command_result_cases emit_def)

theorem cannot_start_is_swallowed_witness:
  "fst (no_shell compile_cmd (dir (initial example_dir))) = NotStarted ''No such file or directory: /bin/sh''
   \<and> fst (run_command no_shell compile_cmd (initial example_dir))
        = Inl (OSError ''No such file or directory: /bin/sh'')
   \<and> fst (no_shell compile_cmd example_dir) = NotStarted ''No such file or directory: /bin/sh''
   \<and> fst (script no_shell example_dir) = 0
   \<and> fst (no_node compile_cmd example_dir) = Exited 0 [] []
   \<and> fst (no_node transpile_cmd (after no_node compile_cmd example_dir))
        = NotStarted ''Resource temporarily unavailable''
   \<and> fst (script no_node example_dir) = 0
   \<and> invoked (trace (snd (script no_node example_dir))) = [compile_cmd, transpile_cmd]
   \<and> copy_calls (trace (snd (script no_node example_dir))) = []"
  using cannot_start_is_swallowed [of no_shell compile_cmd "initial example_dir"
      "''No such file or directory: /bin/sh''" example_dir "[]" "[]"]
    cannot_start_is_swallowed [of no_node compile_cmd "initial example_dir"
      "''Resource temporarily unavailable''" example_dir "[]" "[]"]
  by (simp add: no_shell_def no_node_def after_def cmds_differ cmds_differ [symmetric] initial_def emit_def)

text \<open>
  The claim that the process does not exit with status 0 then fails: without a shell the
  first command cannot be started, and the status is 0.
\<close>

theorem cannot_start_exits_0: 
  "fst (no_shell compile_cmd example_dir) = NotStarted ''No such file or directory: /bin/sh''
   \<and> fst (script no_shell example_dir) = 0"
  by (simp add: script_eq main_try_eq command_result_cases no_shell_def)

subsection \<open>No staleness check\<close>

text \<open>
  C7, as the code has it. A call of the staleness detector would leave its first glob
  over \<open>src/\<close> in the trace; no run of the script has such an event, nor any \<open>stat\<close>.
  Whatever the directory and its timestamps, the compiler is run, and the transpiler is
  run exactly when \<open>run_command\<close> reported the compilation successful.
\<close>

theorem stages_not_gated_by_staleness:
  "invoked (trace (snd (script tools d))) =
     (if (\<exists>out err. command_result tools compile_cmd d = Inr (True, out, err))
      then [compile_cmd, transpile_cmd] else [compile_cmd])
   \<and> \<not> list_ex detector_event (trace (snd (script tools d)))
   \<and> Glob ''src'' ''*.cn'' \<in> set (trace (snd (check_if_transpilation_needed w)))"
proof -
  let ?d1 = "after tools compile_cmd d"
  let ?d2 = "after tools transpile_cmd ?d1"
  have A: "invoked (trace (snd (script tools d))) =
     (if (\<exists>out err. command_result tools compile_cmd d = Inr (True, out, err))
      then [compile_cmd, transpile_cmd] else [compile_cmd])
   \<and> \<not> list_ex detector_event (trace (snd (script tools d)))"
  proof (cases "command_result tools compile_cmd d")
    case (Inl e)
    then show ?thesis by (simp add: script_eq main_try_eq emit_def)
  next
    case (Inr r)
    obtain ok out err where r: "r = (ok, out, err)" by (cases r)
    show ?thesis
    proof (cases ok)
      case False
      with Inr r show ?thesis by (simp add: script_eq main_try_eq emit_def)
    next
      case ok1: True
      show ?thesis
      proof (cases "command_result tools transpile_cmd ?d1")
        case (Inl e)
        with Inr r ok1 show ?thesis by (simp add: script_eq main_try_eq emit_def)
      next
        case r2: (Inr r')
        obtain ok' out' err' where r': "r' = (ok', out', err')" by (cases r')
        show ?thesis
        proof (cases ok')
          case False
          with Inr r ok1 r2 r' show ?thesis by (simp add: script_eq main_try_eq emit_def)
        next
          case True
          let ?w = "\<lparr>dir = ?d2,
                     trace = [Print ScriptStarting, Print DebugStarting, Print StartingTranspilation,
                         Print ForceTranspiling, Print CompilingBuildScript, Run compile_cmd,
                         Print RunningTranspilation, Run transpile_cmd, Print (Output out')]\<rparr>"
          obtain es where es:
            "stage_artifacts ?w =
               (blocked (artifacts (generated (dir ?w))),
                \<lparr>dir = (dir ?w)\<lparr>src := write_all (staged (artifacts (generated (dir ?w)))) (src (dir ?w))\<rparr>,
                 trace = trace ?w @ es\<rparr>)"
            "list_all staging_event es"
            by (rule stage_artifacts_summary)
          from es(2) have q: "invoked es = []" "\<not> list_ex detector_event es"
            using staging_event_quiet by blast+
          from Inr r ok1 r2 r' True es(1) q show ?thesis
            by (simp add: script_eq main_try_eq emit_def invoked_append list_ex_append_iff
                split: sum.splits)
        qed
      qed
    qed
  qed
  with detector_leaves_event show ?thesis by blast
qed

theorem stages_not_gated_by_staleness_witness:
  "fst (check_if_transpilation_needed \<lparr>dir = fresh_dir, trace = []\<rparr>) = Inr False
   \<and> invoked (trace (snd (script quiet_tools fresh_dir))) = [compile_cmd, transpile_cmd]
   \<and> \<not> list_ex detector_event (trace (snd (script quiet_tools fresh_dir)))"
proof -
  have v: "fst (check_if_transpilation_needed \<lparr>dir = fresh_dir, trace = []\<rparr>) = Inr False"
    by (simp add: check_if_transpilation_needed_def fresh_dir_def glob_def Let_def)
  have c: "command_result quiet_tools compile_cmd fresh_dir = Inr (True, [], [])"
    by (simp add: command_result_cases quiet_tools_def)
  from stages_not_gated_by_staleness [of quiet_tools fresh_dir] v c show ?thesis
    by simp
qed

text \<open>
  The claim that both stages run on every invocation fails where the compiler reports
  an error: the transpiler is not run.
\<close>

theorem transpiler_not_run_after_compile_error:
  "invoked (trace (snd (script tsc_fails example_dir))) = [compile_cmd]
   \<and> transpile_cmd \<notin> set (invoked (trace (snd (script tsc_fails example_dir))))"
  by (simp add: script_eq main_try_eq command_result_cases tsc_fails_def emit_def cmds_differ [symmetric])



subsection \<open>Patterns\<close>

lemma fnmatch_literal: "CHR ''*'' \<notin> set p \<Longrightarrow> fnmatch s p = (s = p)"
  by (induction s p rule: fnmatch.induct) auto

lemma fnmatch_star:
  "CHR ''*'' \<notin> set p \<Longrightarrow> fnmatch s (CHR ''*'' # p) = (\<exists>pre. s = pre @ p)"
proof (induction s)
  case Nil
  then show ?case by (cases p) auto
next
  case (Cons c cs)
  have "(\<exists>pre. c # cs = pre @ p) = (c # cs = p \<or> (\<exists>pre. cs = pre @ p))"
    by (auto simp: Cons_eq_append_conv)
  with Cons show ?case by (simp add: fnmatch_literal)
qed

lemma matches_cpp: "fnmatch n ''*.cpp'' = (\<exists>pre. n = pre @ ''.cpp'')"
  by (rule fnmatch_star) simp

lemma matches_h: "fnmatch n ''*.h'' = (\<exists>pre. n = pre @ ''.h'')"
  by (rule fnmatch_star) simp

lemma matches_cn: "fnmatch n ''*.cn'' = (\<exists>pre. n = pre @ ''.cn'')"
  by (rule fnmatch_star) simp

lemma matches_cnm: "fnmatch n ''*.cnm'' = (\<exists>pre. n = pre @ ''.cnm'')"
  by (rule fnmatch_star) simp

lemma last_of_match:
  "fnmatch n ''*.cpp'' \<Longrightarrow> last n = CHR ''p''"
  "fnmatch n ''*.h'' \<Longrightarrow> last n = CHR ''h''"
  "fnmatch n ''*.cn'' \<Longrightarrow> last n = CHR ''n''"
  "fnmatch n ''*.cnm'' \<Longrightarrow> last n = CHR ''m''"
  by (auto simp: matches_cpp matches_h matches_cn matches_cnm)

lemma cpp_not_h: "fnmatch n ''*.cpp'' \<Longrightarrow> \<not> fnmatch n ''*.h''"
  using last_of_match(1,2) [of n] by auto

lemma source_not_artifact:
  "fnmatch n ''*.cn'' \<or> fnmatch n ''*.cnm'' \<Longrightarrow> \<not> fnmatch n ''*.cpp'' \<and> \<not> fnmatch n ''*.h''"
  using last_of_match [of n] by auto

subsection \<open>Writing files\<close>

lemma map_of_write_all: "map_of (write_all ups s) = map_of s ++ map_of (rev ups)"
  by (induction ups arbitrary: s) (auto simp: write_all_def AList.update_conv' fun_eq_iff map_add_def split: option.splits)

lemma keys_write_all: "fst ` set (write_all ups s) = fst ` set s \<union> fst ` set ups"
  by (induction ups arbitrary: s) (auto simp: write_all_def AList.dom_update)

lemma overlay_empty: "overlay Map.empty t = t"
  by (induction t) simp_all

lemma update_overlay:
  "k \<in> fst ` set t \<Longrightarrow> AList.update k v (overlay M t) = overlay (M(k \<mapsto> v)) t"
proof (induction t arbitrary: M)
  case Nil
  then show ?case by simp
next
  case (Cons p ps)
  show ?case
  proof (cases "fst p = k")
    case True
    have "(M(k \<mapsto> v))(k := None) = M(k := None)" by simp
    then have "overlay (M(k \<mapsto> v)) (p # ps) = (k, v) # overlay (M(k := None)) ps"
      using True by (simp only: overlay.simps fun_upd_same option.case)
    moreover have "AList.update k v (overlay M (p # ps)) = (k, v) # overlay (M(k := None)) ps"
      using True by (simp only: overlay.simps AList.update.simps fst_conv refl if_True)
    ultimately show ?thesis by (simp only:)
  next
    case False
    with Cons.prems have "k \<in> fst ` set ps" by auto
    from Cons.IH [OF this, of "M(fst p := None)"] False show ?thesis
      by (simp add: fun_upd_twist fun_upd_other del: fun_upd_apply)
  qed
qed

lemma write_all_overlay:
  "fst ` set ups \<subseteq> fst ` set t \<Longrightarrow>
     write_all ups (overlay M t) = overlay (M ++ map_of (rev ups)) t"
proof (induction ups arbitrary: M)
  case Nil
  then show ?case by (simp add: write_all_def)
next
  case (Cons u ups)
  then have k: "fst u \<in> fst ` set t" and r: "fst ` set ups \<subseteq> fst ` set t" by auto
  have "write_all (u # ups) (overlay M t) = write_all ups (AList.update (fst u) (snd u) (overlay M t))"
    by (simp add: write_all_def)
  also have "\<dots> = write_all ups (overlay (M(fst u \<mapsto> snd u)) t)"
    by (simp add: update_overlay [OF k])
  also have "\<dots> = overlay (M(fst u \<mapsto> snd u) ++ map_of (rev ups)) t"
    by (rule Cons.IH [OF r])
  also have "M(fst u \<mapsto> snd u) ++ map_of (rev ups) = M ++ map_of (rev (u # ups))"
    by (cases u) (simp add: map_add_def fun_eq_iff split: option.splits)
  finally show ?case .
qed

lemma overlay_agree:
  "(\<And>k v. M k = Some v \<Longrightarrow> map_of t k = Some v) \<Longrightarrow> overlay M t = t"
proof (induction t arbitrary: M)
  case Nil
  then show ?case by simp
next
  case (Cons p ps)
  have "overlay (M(fst p := None)) ps = ps"
  proof (rule Cons.IH)
    fix k v assume "(M(fst p := None)) k = Some v"
    then have "k \<noteq> fst p" "M k = Some v" by (auto split: if_splits)
    with Cons.prems [of k v] show "map_of ps k = Some v" by (cases p) (auto split: if_splits)
  qed
  moreover have "(case M (fst p) of None \<Rightarrow> snd p | Some v \<Rightarrow> v) = snd p"
    using Cons.prems [of "fst p"] by (cases p) (auto split: option.splits)
  ultimately show ?case by simp
qed

lemma write_all_idem: "write_all ups (write_all ups s) = write_all ups s"
proof -
  let ?t = "write_all ups s"
  have "fst ` set ups \<subseteq> fst ` set ?t" by (simp add: keys_write_all)
  from write_all_overlay [OF this, of Map.empty]
  have "write_all ups ?t = overlay (map_of (rev ups)) ?t" by (simp add: overlay_empty)
  also have "\<dots> = ?t"
    by (rule overlay_agree) (simp add: map_of_write_all)
  finally show ?thesis .
qed

subsection \<open>Successful runs\<close>

lemma script_success:
  assumes "command_result tools compile_cmd d = Inr (True, out1, err1)"
    and "command_result tools transpile_cmd (after tools compile_cmd d) = Inr (True, out, err)"
    and "d2 = after tools transpile_cmd (after tools compile_cmd d)"
    and "A = artifacts (generated d2)"
  shows "fst (script tools d) = 0"
    and "dir (snd (script tools d)) = d2\<lparr>src := write_all (staged A) (src d2)\<rparr>"
    and "copied (trace (snd (script tools d))) = map fst (staged A)"
    and "copy_calls (trace (snd (script tools d))) = map copy_call (attempted A)"
    and "invoked (trace (snd (script tools d))) = [compile_cmd, transpile_cmd]"
proof -
  let ?w = "\<lparr>dir = d2,
             trace = [Print ScriptStarting, Print DebugStarting, Print StartingTranspilation,
                      Print ForceTranspiling, Print CompilingBuildScript, Run compile_cmd,
                      Print RunningTranspilation, Run transpile_cmd, Print (Output out)]\<rparr>"
  obtain es where es:
    "stage_artifacts ?w =
       (blocked (artifacts (generated (dir ?w))),
        \<lparr>dir = (dir ?w)\<lparr>src := write_all (staged (artifacts (generated (dir ?w)))) (src (dir ?w))\<rparr>,
         trace = trace ?w @ es\<rparr>)"
    "list_all staging_event es"
    "copied es = map fst (staged (artifacts (generated (dir ?w))))"
    "copy_calls es = map copy_call (attempted (artifacts (generated (dir ?w))))"
    by (rule stage_artifacts_summary)
  from es(2) have q: "invoked es = []" using staging_event_quiet by blast
  have s: "script tools d =
     (case blocked A of
        Inl e \<Rightarrow> (0, emit (PrintExc e) (emit (Print (Error e))
                   \<lparr>dir = d2\<lparr>src := write_all (staged A) (src d2)\<rparr>, trace = trace ?w @ es\<rparr>))
      | Inr u \<Rightarrow> (0, emit (Print Completed)
                   \<lparr>dir = d2\<lparr>src := write_all (staged A) (src d2)\<rparr>, trace = trace ?w @ es\<rparr>))"
    using assms es(1) by (simp add: script_eq main_try_eq emit_def split: sum.splits)
  show "fst (script tools d) = 0" by (simp add: s split: sum.splits)
  show "dir (snd (script tools d)) = d2\<lparr>src := write_all (staged A) (src d2)\<rparr>"
    by (simp add: s emit_def split: sum.splits)
  show "copied (trace (snd (script tools d))) = map fst (staged A)"
    using es(3) assms(4) by (simp add: s emit_def copied_append split: sum.splits)
  show "copy_calls (trace (snd (script tools d))) = map copy_call (attempted A)"
    using es(4) assms(4) by (simp add: s emit_def copy_calls_append split: sum.splits)
  show "invoked (trace (snd (script tools d))) = [compile_cmd, transpile_cmd]"
    using q by (simp add: s emit_def invoked_append split: sum.splits)
qed

lemma all_regular:
  assumes "\<forall>e \<in> set A. \<exists>f. snd e = Reg f"
  shows "blocked A = Inr ()" and "attempted A = map fst A" and "map fst (staged A) = map fst A"
    and "set (staged A) = {(n, f). (n, Reg f) \<in> set A}"
  using assms by (induction A rule: staged.induct) auto

lemma artifacts_Dir:
  "artifacts (Some (Dir entries)) = glob ''*.cpp'' entries @ glob ''*.h'' entries"
  by (simp add: artifacts_def path_glob_def)

lemma artifacts_None: "artifacts None = []"
  by (simp add: artifacts_def path_glob_def)

lemma distinct_artifacts:
  assumes "distinct (map fst entries)"
  shows "distinct (map fst (glob ''*.cpp'' entries @ glob ''*.h'' entries))"
  using assms by (auto simp: glob_def distinct_map_filter dest: cpp_not_h)

lemma map_of_write_all_distinct:
  assumes "distinct (map fst ups)" and "(n, f) \<in> set ups"
  shows "map_of (write_all ups s) n = Some f"
proof -
  from assms have "distinct (map fst (rev ups))" "(n, f) \<in> set (rev ups)"
    by (simp_all add: rev_map [symmetric])
  then have "map_of (rev ups) n = Some f" by (rule map_of_is_SomeI)
  then show ?thesis by (simp add: map_of_write_all)
qed

text \<open>
  C8. Let both commands succeed and let \<open>d2\<close> be the directory the transpiler leaves.
  If \<open>generated/\<close> is a directory whose entries matching \<open>*.cpp\<close> or \<open>*.h\<close> are \<open>N\<close> regular
  files, then \<open>copy2\<close> is called exactly \<open>N\<close> times, once for each of them, each copy is
  reported, each of the files is afterwards in \<open>src/\<close> under its name with the same
  content and modification time, and the status is 0. If \<open>generated/\<close> does not exist,
  nothing is copied, the directory is left as it is, and the status is 0.
\<close>

theorem staging_copies_every_artifact:
  assumes "command_result tools compile_cmd d = Inr (True, out1, err1)"
    and "command_result tools transpile_cmd (after tools compile_cmd d) = Inr (True, out, err)"
    and "d2 = after tools transpile_cmd (after tools compile_cmd d)"
  shows "(generated d2 = Some (Dir entries) \<and> distinct (map fst entries)
          \<and> files = glob ''*.cpp'' entries @ glob ''*.h'' entries
          \<and> (\<forall>e \<in> set files. \<exists>f. snd e = Reg f) \<and> length files = N
          \<longrightarrow> fst (script tools d) = 0
              \<and> length (copy_calls (trace (snd (script tools d)))) = N
              \<and> copy_calls (trace (snd (script tools d))) = map (\<lambda>e. copy_call (fst e)) files
              \<and> copied (trace (snd (script tools d))) = map fst files
              \<and> (\<forall>n f. (n, Reg f) \<in> set files \<longrightarrow>
                    map_of (src (dir (snd (script tools d)))) n = Some f))
       \<and> (generated d2 = None
          \<longrightarrow> fst (script tools d) = 0
              \<and> copy_calls (trace (snd (script tools d))) = []
              \<and> copied (trace (snd (script tools d))) = []
              \<and> dir (snd (script tools d)) = d2)"
proof (intro conjI impI)
  assume h: "generated d2 = Some (Dir entries) \<and> distinct (map fst entries)
          \<and> files = glob ''*.cpp'' entries @ glob ''*.h'' entries
          \<and> (\<forall>e \<in> set files. \<exists>f. snd e = Reg f) \<and> length files = N"
  then have A: "files = artifacts (generated d2)" by (simp add: artifacts_Dir)
  note S = script_success [OF assms A]
  from h have reg: "\<forall>e \<in> set files. \<exists>f. snd e = Reg f" by blast
  note R = all_regular [OF reg]
  from h have dist: "distinct (map fst files)" using distinct_artifacts by blast
  show "fst (script tools d) = 0" by (rule S(1))
  from h have N: "length files = N" by blast
  show "length (copy_calls (trace (snd (script tools d)))) = N"
    by (simp only: S(4) R(2) length_map N)
  show "copy_calls (trace (snd (script tools d))) = map (\<lambda>e. copy_call (fst e)) files"
    by (simp add: S(4) R(2) comp_def)
  show "copied (trace (snd (script tools d))) = map fst files"
    by (simp add: S(3) R(3))
  show "\<forall>n f. (n, Reg f) \<in> set files \<longrightarrow> map_of (src (dir (snd (script tools d)))) n = Some f"
  proof (intro allI impI)
    fix n f assume "(n, Reg f) \<in> set files"
    then have "(n, f) \<in> set (staged files)" by (simp add: R(4))
    moreover from dist have "distinct (map fst (staged files))" by (simp add: R(3))
    ultimately show "map_of (src (dir (snd (script tools d)))) n = Some f"
      by (simp add: S(2) map_of_write_all_distinct)
  qed
next
  assume h: "generated d2 = None"
  then have A: "[] = artifacts (generated d2)" by (simp add: artifacts_None)
  note S = script_success [OF assms A]
  show "fst (script tools d) = 0" by (rule S(1))
  show "copy_calls (trace (snd (script tools d))) = []" using S(4) by simp
  show "copied (trace (snd (script tools d))) = []" using S(3) by simp
  show "dir (snd (script tools d)) = d2" using S(2) by (simp add: write_all_def)
qed

theorem staging_copies_every_artifact_witness:
  "command_result toolchain compile_cmd example_dir = Inr (True, [], [])
   \<and> command_result toolchain transpile_cmd (after toolchain compile_cmd example_dir)
       = Inr (True, ''transpiled 1 file'', [])
   \<and> generated (after toolchain transpile_cmd (after toolchain compile_cmd example_dir))
       = Some (Dir fresh_output)
   \<and> distinct (map fst fresh_output)
   \<and> glob ''*.cpp'' fresh_output @ glob ''*.h'' fresh_output
       = [(''main.cpp'', Reg (File 200 ''int led;'')), (''main.h'', Reg (File 201 ''extern int led;''))]
   \<and> fst (script toolchain example_dir) = 0
   \<and> length (copy_calls (trace (snd (script toolchain example_dir)))) = 2
   \<and> copied (trace (snd (script toolchain example_dir))) = [''main.cpp'', ''main.h'']
   \<and> map_of (src (dir (snd (script toolchain example_dir)))) ''main.cpp'' = Some (File 200 ''int led;'')
   \<and> map_of (src (dir (snd (script toolchain example_dir)))) ''main.h'' = Some (File 201 ''extern int led;'')
   \<and> command_result quiet_tools compile_cmd example_dir = Inr (True, [], [])
   \<and> command_result quiet_tools transpile_cmd (after quiet_tools compile_cmd example_dir)
       = Inr (True, [], [])
   \<and> generated (after quiet_tools transpile_cmd (after quiet_tools compile_cmd example_dir)) = None
   \<and> fst (script quiet_tools example_dir) = 0
   \<and> copy_calls (trace (snd (script quiet_tools example_dir))) = []
   \<and> dir (snd (script quiet_tools example_dir)) = example_dir"
proof -
  let ?files = "[(''main.cpp'', Reg (File 200 ''int led;'')), (''main.h'', Reg (File 201 ''extern int led;''))]"
  have c1: "command_result toolchain compile_cmd example_dir = Inr (True, [], [])"
    by (simp add: command_result_cases toolchain_def)
  have a1: "after toolchain compile_cmd example_dir = example_dir"
    by (simp add: after_def toolchain_def)
  have c2: "command_result toolchain transpile_cmd (after toolchain compile_cmd example_dir)
       = Inr (True, ''transpiled 1 file'', [])"
    by (simp add: a1 command_result_cases toolchain_def cmds_differ [symmetric])
  have g: "generated (after toolchain transpile_cmd (after toolchain compile_cmd example_dir))
       = Some (Dir fresh_output)"
    by (simp add: a1 after_def toolchain_def cmds_differ [symmetric])
  have d: "distinct (map fst fresh_output)"
    by (simp add: fresh_output_def)
  have f: "glob ''*.cpp'' fresh_output @ glob ''*.h'' fresh_output = ?files"
    by (simp add: fresh_output_def glob_def)
  have r: "\<forall>e \<in> set ?files. \<exists>f. snd e = Reg f" by simp
  have q1: "command_result quiet_tools compile_cmd example_dir = Inr (True, [], [])"
    by (simp add: command_result_cases quiet_tools_def)
  have b1: "after quiet_tools compile_cmd example_dir = example_dir"
    "after quiet_tools transpile_cmd example_dir = example_dir"
    by (simp_all add: after_def quiet_tools_def)
  have q2: "command_result quiet_tools transpile_cmd (after quiet_tools compile_cmd example_dir)
       = Inr (True, [], [])"
    by (simp add: b1 command_result_cases quiet_tools_def)
  have n: "generated (after quiet_tools transpile_cmd (after quiet_tools compile_cmd example_dir)) = None"
    unfolding b1 by (simp add: example_dir_def)
  from staging_copies_every_artifact [OF c1 c2 refl, of fresh_output ?files 2] g d f r
  have 1: "fst (script toolchain example_dir) = 0
      \<and> length (copy_calls (trace (snd (script toolchain example_dir)))) = 2
      \<and> copied (trace (snd (script toolchain example_dir))) = map fst ?files
      \<and> (\<forall>n f. (n, Reg f) \<in> set ?files \<longrightarrow>
            map_of (src (dir (snd (script toolchain example_dir)))) n = Some f)"
    by simp
  from staging_copies_every_artifact [OF q1 q2 refl, of "[]" "[]" 0] n
  have 2: "fst (script quiet_tools example_dir) = 0
      \<and> copy_calls (trace (snd (script quiet_tools example_dir))) = []
      \<and> dir (snd (script quiet_tools example_dir)) = example_dir"
    by (simp add: b1)
  from 1 2 c1 c2 g d f q1 q2 n show ?thesis by simp
qed


subsection \<open>What staging leaves alone, and staging again\<close>

lemma staged_subset: "(n, f) \<in> set (staged A) \<Longrightarrow> (n, Reg f) \<in> set A"
  by (induction A rule: staged.induct) auto

lemma staged_names:
  "fst ` set (staged (artifacts (generated d))) \<subseteq> top_level_artifacts d"
proof
  fix n assume "n \<in> fst ` set (staged (artifacts (generated d)))"
  then obtain f where "(n, f) \<in> set (staged (artifacts (generated d)))" by auto
  then have m: "(n, Reg f) \<in> set (artifacts (generated d))" by (rule staged_subset)
  then obtain entries where g: "generated d = Some (Dir entries)"
    by (cases "generated d") (auto simp: artifacts_def path_glob_def split: node.splits)
  with m have "(n, Reg f) \<in> set entries" "fnmatch n ''*.cpp'' \<or> fnmatch n ''*.h''"
    by (auto simp: artifacts_Dir glob_def)
  with g show "n \<in> top_level_artifacts d" by (auto simp: top_level_artifacts_def)
qed

lemma filter_update_out:
  "k \<in> T \<Longrightarrow> filter (\<lambda>e. fst e \<notin> T) (AList.update k v s) = filter (\<lambda>e. fst e \<notin> T) s"
  by (induction s) auto

lemma filter_write_all_out:
  "fst ` set ups \<subseteq> T \<Longrightarrow> filter (\<lambda>e. fst e \<notin> T) (write_all ups s) = filter (\<lambda>e. fst e \<notin> T) s"
  by (induction ups arbitrary: s) (auto simp: write_all_def filter_update_out)

lemma length_update: "length s \<le> length (AList.update k v s)"
  by (induction s) auto

lemma length_write_all: "length s \<le> length (write_all ups s)"
proof (induction ups arbitrary: s)
  case Nil
  then show ?case by (simp add: write_all_def)
next
  case (Cons u ups)
  have "length s \<le> length (AList.update (fst u) (snd u) s)" by (rule length_update)
  also have "\<dots> \<le> length (write_all ups (AList.update (fst u) (snd u) s))" by (rule Cons)
  finally show ?case by (simp add: write_all_def)
qed

lemma map_of_write_all_out:
  "n \<notin> fst ` set ups \<Longrightarrow> map_of (write_all ups s) n = map_of s n"
  by (simp add: map_of_write_all map_add_def map_of_eq_None_iff [THEN iffD2] split: option.splits)

lemma stage_artifacts_dir:
  "dir (snd (stage_artifacts w)) =
     (dir w)\<lparr>src := write_all (staged (artifacts (generated (dir w)))) (src (dir w))\<rparr>"
proof -
  obtain es where
    "stage_artifacts w =
       (blocked (artifacts (generated (dir w))),
        \<lparr>dir = (dir w)\<lparr>src := write_all (staged (artifacts (generated (dir w)))) (src (dir w))\<rparr>,
         trace = trace w @ es\<rparr>)"
    by (rule stage_artifacts_summary)
  then show ?thesis by simp
qed

lemma example_run:
  "dir (snd (script toolchain example_dir)) =
     \<lparr>src = [(''main.cn'', File 100 ''u8 led;''), (''main.cpp'', File 200 ''int led;''),
             (''main.h'', File 201 ''extern int led;'')],
      generated = Some (Dir fresh_output)\<rparr>"
proof -
  have c1: "command_result toolchain compile_cmd example_dir = Inr (True, [], [])"
    by (simp add: command_result_cases toolchain_def)
  have a1: "after toolchain compile_cmd example_dir = example_dir"
    by (simp add: after_def toolchain_def)
  have c2: "command_result toolchain transpile_cmd (after toolchain compile_cmd example_dir)
       = Inr (True, ''transpiled 1 file'', [])"
    by (simp add: a1 command_result_cases toolchain_def cmds_differ [symmetric])
  have a2: "after toolchain transpile_cmd (after toolchain compile_cmd example_dir)
       = example_dir\<lparr>generated := Some (Dir fresh_output)\<rparr>"
    by (simp add: a1 after_def toolchain_def cmds_differ [symmetric])
  have A: "[(''main.cpp'', Reg (File 200 ''int led;'')), (''main.h'', Reg (File 201 ''extern int led;''))]
       = artifacts (generated (example_dir\<lparr>generated := Some (Dir fresh_output)\<rparr>))"
    by (simp add: artifacts_Dir glob_def fresh_output_def)
  from script_success(2) [OF c1 c2 a2 [symmetric] A] show ?thesis
    by (simp add: write_all_def example_dir_def)
qed

text \<open>
  C9. Staging is idempotent. A staged file replaces whatever \<open>src/\<close> held under its
  name (the directory after staging is the one before, overridden by the staged files),
  so staging once more, from the directory the first staging left, changes nothing and
  ends the same way, whatever \<open>generated/\<close> and \<open>src/\<close> hold. For the whole script: after
  a run in which both commands succeeded, a second run whose commands succeed and find
  nothing to change leaves the directory exactly as the first run left it.
\<close>

theorem staging_is_idempotent:
  "dir (snd (stage_artifacts (snd (stage_artifacts w)))) = dir (snd (stage_artifacts w))
   \<and> fst (stage_artifacts (snd (stage_artifacts w))) = fst (stage_artifacts w)
   \<and> map_of (src (dir (snd (stage_artifacts w))))
       = map_of (src (dir w)) ++ map_of (rev (staged (artifacts (generated (dir w)))))
   \<and> (command_result tools compile_cmd d = Inr (True, out1, err1)
      \<and> command_result tools transpile_cmd (after tools compile_cmd d) = Inr (True, out2, err2)
      \<and> d' = dir (snd (script tools d))
      \<and> tools compile_cmd d' = (Exited 0 out3 err3, d')
      \<and> tools transpile_cmd d' = (Exited 0 out4 err4, d')
      \<longrightarrow> fst (script tools d') = 0 \<and> dir (snd (script tools d')) = d')"
proof (intro conjI impI)
  obtain es where 1:
    "stage_artifacts w =
       (blocked (artifacts (generated (dir w))),
        \<lparr>dir = (dir w)\<lparr>src := write_all (staged (artifacts (generated (dir w)))) (src (dir w))\<rparr>,
         trace = trace w @ es\<rparr>)"
    by (rule stage_artifacts_summary)
  let ?w = "snd (stage_artifacts w)"
  obtain es' where 2:
    "stage_artifacts ?w =
       (blocked (artifacts (generated (dir ?w))),
        \<lparr>dir = (dir ?w)\<lparr>src := write_all (staged (artifacts (generated (dir ?w)))) (src (dir ?w))\<rparr>,
         trace = trace ?w @ es'\<rparr>)"
    by (rule stage_artifacts_summary)
  from 1 have g: "generated (dir ?w) = generated (dir w)"
    and s: "src (dir ?w) = write_all (staged (artifacts (generated (dir w)))) (src (dir w))"
    by simp_all
  show "dir (snd (stage_artifacts ?w)) = dir ?w"
    unfolding 2 unfolding g s unfolding 1 by (simp add: write_all_idem)
  show "fst (stage_artifacts ?w) = fst (stage_artifacts w)"
    unfolding 2 unfolding g unfolding 1 by simp
  show "map_of (src (dir ?w))
       = map_of (src (dir w)) ++ map_of (rev (staged (artifacts (generated (dir w)))))"
    by (simp add: s map_of_write_all)
next
  assume h: "command_result tools compile_cmd d = Inr (True, out1, err1)
      \<and> command_result tools transpile_cmd (after tools compile_cmd d) = Inr (True, out2, err2)
      \<and> d' = dir (snd (script tools d))
      \<and> tools compile_cmd d' = (Exited 0 out3 err3, d')
      \<and> tools transpile_cmd d' = (Exited 0 out4 err4, d')"
  let ?d2 = "after tools transpile_cmd (after tools compile_cmd d)"
  let ?A = "artifacts (generated ?d2)"
  from h have r1: "command_result tools compile_cmd d = Inr (True, out1, err1)"
    and r2: "command_result tools transpile_cmd (after tools compile_cmd d) = Inr (True, out2, err2)"
    and d': "d' = dir (snd (script tools d))"
    and t1: "tools compile_cmd d' = (Exited 0 out3 err3, d')"
    and t2: "tools transpile_cmd d' = (Exited 0 out4 err4, d')" by blast+
  have first: "d' = ?d2\<lparr>src := write_all (staged ?A) (src ?d2)\<rparr>"
    unfolding d' by (rule script_success(2) [OF r1 r2 refl refl])
  have a1: "after tools compile_cmd d' = d'" using t1 by (simp add: after_def)
  have a2: "after tools transpile_cmd (after tools compile_cmd d') = d'"
    unfolding a1 using t2 by (simp add: after_def)
  have c1: "command_result tools compile_cmd d' = Inr (True, out3, err3)"
    using t1 by (simp add: command_result_cases)
  have c2: "command_result tools transpile_cmd (after tools compile_cmd d') = Inr (True, out4, err4)"
    unfolding a1 using t2 by (simp add: command_result_cases)
  have gd: "generated d' = generated ?d2" by (subst first) simp
  have sd: "src d' = write_all (staged ?A) (src ?d2)" by (subst first) simp
  have A: "?A = artifacts (generated d')" by (simp only: gd)
  have "dir (snd (script tools d')) = d'\<lparr>src := write_all (staged ?A) (src d')\<rparr>"
    by (rule script_success(2) [OF c1 c2 a2 [symmetric] A])
  also have "write_all (staged ?A) (src d') = src d'"
    by (simp only: sd write_all_idem)
  finally show "dir (snd (script tools d')) = d'" by simp
  show "fst (script tools d') = 0"
    by (rule script_success(1) [OF c1 c2 a2 [symmetric] A])
qed

theorem staging_is_idempotent_witness:
  "command_result toolchain compile_cmd example_dir = Inr (True, [], [])
   \<and> command_result toolchain transpile_cmd (after toolchain compile_cmd example_dir)
       = Inr (True, ''transpiled 1 file'', [])
   \<and> toolchain compile_cmd (dir (snd (script toolchain example_dir)))
       = (Exited 0 [] [], dir (snd (script toolchain example_dir)))
   \<and> toolchain transpile_cmd (dir (snd (script toolchain example_dir)))
       = (Exited 0 ''transpiled 1 file'' [], dir (snd (script toolchain example_dir)))
   \<and> dir (snd (script toolchain (dir (snd (script toolchain example_dir)))))
       = dir (snd (script toolchain example_dir))
   \<and> src (dir (snd (script toolchain example_dir)))
       = [(''main.cn'', File 100 ''u8 led;''), (''main.cpp'', File 200 ''int led;''),
          (''main.h'', File 201 ''extern int led;'')]"
proof -
  let ?d' = "dir (snd (script toolchain example_dir))"
  have c1: "command_result toolchain compile_cmd example_dir = Inr (True, [], [])"
    by (simp add: command_result_cases toolchain_def)
  have a1: "after toolchain compile_cmd example_dir = example_dir"
    by (simp add: after_def toolchain_def)
  have c2: "command_result toolchain transpile_cmd (after toolchain compile_cmd example_dir)
       = Inr (True, ''transpiled 1 file'', [])"
    by (simp add: a1 command_result_cases toolchain_def cmds_differ [symmetric])
  have t1: "toolchain compile_cmd ?d' = (Exited 0 [] [], ?d')"
    by (simp add: toolchain_def)
  have t2: "toolchain transpile_cmd ?d' = (Exited 0 ''transpiled 1 file'' [], ?d')"
    by (simp add: example_run toolchain_def cmds_differ [symmetric])
  from staging_is_idempotent [where tools = toolchain and d = example_dir and d' = ?d'
      and ?out1.0 = "[]" and ?err1.0 = "[]" and ?out2.0 = "''transpiled 1 file''" and ?err2.0 = "[]"
      and ?out3.0 = "[]" and ?err3.0 = "[]" and ?out4.0 = "''transpiled 1 file''" and ?err4.0 = "[]"]
    c1 c2 t1 t2
  have "dir (snd (script toolchain ?d')) = ?d'" by blast
  with c1 c2 t1 t2 show ?thesis by (simp add: example_run)
qed

text \<open>
  C10. Staging writes in \<open>src/\<close> only under the names of the regular files directly in
  \<open>generated/\<close> that match \<open>*.cpp\<close> or \<open>*.h\<close>. Under every other name \<open>src/\<close> holds after
  staging exactly what it held before: in particular under the names of the \<open>*.cn\<close> and
  \<open>*.cnm\<close> sources, and under the name of a file that \<open>generated/\<close> holds only in a
  sub-directory. No entry of \<open>src/\<close> disappears, and \<open>generated/\<close> itself is not changed.
\<close>

theorem staging_writes_only_artifacts:
  "(n \<notin> top_level_artifacts (dir w) \<longrightarrow>
      map_of (src (dir (snd (stage_artifacts w)))) n = map_of (src (dir w)) n)
   \<and> (fnmatch n ''*.cn'' \<or> fnmatch n ''*.cnm'' \<longrightarrow>
      map_of (src (dir (snd (stage_artifacts w)))) n = map_of (src (dir w)) n)
   \<and> filter (\<lambda>e. fst e \<notin> top_level_artifacts (dir w)) (src (dir (snd (stage_artifacts w))))
       = filter (\<lambda>e. fst e \<notin> top_level_artifacts (dir w)) (src (dir w))
   \<and> fst ` set (src (dir w)) \<subseteq> fst ` set (src (dir (snd (stage_artifacts w))))
   \<and> length (src (dir w)) \<le> length (src (dir (snd (stage_artifacts w))))
   \<and> generated (dir (snd (stage_artifacts w))) = generated (dir w)"
proof -
  let ?ups = "staged (artifacts (generated (dir w)))"
  have sub: "fst ` set ?ups \<subseteq> top_level_artifacts (dir w)" by (rule staged_names)
  have out: "map_of (write_all ?ups (src (dir w))) n = map_of (src (dir w)) n"
    if "n \<notin> top_level_artifacts (dir w)" for n
    using that sub by (intro map_of_write_all_out) blast
  have cn: "n \<notin> top_level_artifacts (dir w)" if "fnmatch n ''*.cn'' \<or> fnmatch n ''*.cnm''"
    using source_not_artifact [OF that] by (auto simp: top_level_artifacts_def)
  show ?thesis
    by (auto simp add: stage_artifacts_dir out cn filter_write_all_out [OF sub]
        keys_write_all length_write_all)
qed

theorem staging_writes_only_artifacts_witness:
  "''deep.h'' \<notin> top_level_artifacts staged_project
   \<and> map_of (src (dir (snd (stage_artifacts \<lparr>dir = staged_project, trace = []\<rparr>)))) ''deep.h''
       = Some (File 7 ''// mine'')
   \<and> fnmatch ''main.cn'' ''*.cn''
   \<and> map_of (src (dir (snd (stage_artifacts \<lparr>dir = staged_project, trace = []\<rparr>)))) ''main.cn''
       = Some (File 100 ''u8 led;'')
   \<and> length (src (dir (snd (stage_artifacts \<lparr>dir = staged_project, trace = []\<rparr>)))) \<ge> 3
   \<and> generated (dir (snd (stage_artifacts \<lparr>dir = staged_project, trace = []\<rparr>)))
       = Some (Dir fresh_output)"
proof -
  let ?w = "\<lparr>dir = staged_project, trace = []\<rparr>"
  have 1: "''deep.h'' \<notin> top_level_artifacts (dir ?w)"
    by (auto simp: top_level_artifacts_def staged_project_def fresh_output_def)
  have 2: "fnmatch ''main.cn'' ''*.cn'' \<or> fnmatch ''main.cn'' ''*.cnm''" by simp
  from staging_writes_only_artifacts [of "''deep.h''" ?w] 1
  have a: "map_of (src (dir (snd (stage_artifacts ?w)))) ''deep.h'' = map_of (src (dir ?w)) ''deep.h''"
    and c: "length (src (dir ?w)) \<le> length (src (dir (snd (stage_artifacts ?w))))"
    and d: "generated (dir (snd (stage_artifacts ?w))) = generated (dir ?w)"
    by blast+
  from staging_writes_only_artifacts [of "''main.cn''" ?w] 2
  have b: "map_of (src (dir (snd (stage_artifacts ?w)))) ''main.cn'' = map_of (src (dir ?w)) ''main.cn''"
    by blast
  from 1 a b c d show ?thesis
    by (simp add: staged_project_def)
qed

end
